theory Spec2Isabelle
  imports Complex_Main "HOL-Library.Monad_Syntax" "HOL-Library.Sublist"
begin

section \<open>Data model\<close>

text \<open>
  The dashboard script \<^verbatim>\<open>app_02.py\<close> threads one pandas DataFrame through a sequence of
  top-level statements. A DataFrame is modelled as the list of its rows, in row order; a
  column \<^verbatim>\<open>df['Sector']\<close> is \<open>map Sector df\<close>. A cell that pandas holds as NaN
  (a missing value) is \<open>None\<close>. Strings are ASCII character lists. A float64 is modelled
  by the real number it stands for. Where lines 62-63 make a float64 out of a digit string
  and multiply it by 1000, the result is rounded as float64 rounds it (\<open>round_f64\<close>
  below); the sum and the half of line 64, the comparisons of the filter and the means of
  the summary are taken on the reals. The cells hold no infinity: a digit run so long that
  the script stores \<^verbatim>\<open>inf\<close> for it (more than 300 digits) is outside the model, and
  every statement about the value of a salary names the range it holds in.

  A row holds the eight columns the script reads or displays. Any further column of the
  file is carried along untouched and is never shown, so it is left out.
\<close>

record csv_row =
  Job_Title :: "string option"
  Company_Name :: "string option"
  Location :: "string option"
  Salary_Estimate :: "string option"
  Rating :: "real option"
  Sector :: "string option"
  Size :: "string option"
  Revenue :: "string option"

text \<open>The rows after preprocessing carry the three derived salary columns as well.\<close>

record df_row = csv_row +
  Salary_Min :: "real option"
  Salary_Max :: "real option"
  Avg_Salary :: "real option"

section \<open>Salary extraction (lines 62-64)\<close>

text \<open>The regular-expression class \<^verbatim>\<open>\d\<close>, on ASCII text.\<close>

definition is_digit :: "char \<Rightarrow> bool" where
  "is_digit c \<longleftrightarrow> c \<in> set ''0123456789''"

definition digit_value :: "char \<Rightarrow> nat" where
  "digit_value c = of_char c - 48"

text \<open>The number a string of decimal digits denotes.\<close>

definition decimal :: "string \<Rightarrow> nat" where
  "decimal ds = foldl (\<lambda>n c. 10 * n + digit_value c) 0 ds"

text \<open>
  A float64 has 53 significant bits. \<open>excess_bits n\<close> is the number of low bits of the
  natural number \<open>n\<close> that do not fit, and \<open>round_f64 n\<close> is the float64 nearest to \<open>n\<close>,
  a tie going to the even significand, as IEEE 754 arithmetic and Python's conversion of a
  string to a float round. The exponent is not bounded here (see the data model).
\<close>

function excess_bits :: "nat \<Rightarrow> nat" where
  "excess_bits n = (if n < 2 ^ 53 then 0 else Suc (excess_bits (n div 2)))"
  by pat_completeness auto
termination
  by (relation "measure id") auto

declare excess_bits.simps [simp del]

definition round_f64 :: "nat \<Rightarrow> nat" where
  "round_f64 n =
     (let u = 2 ^ excess_bits n; q = n div u; r = n mod u
      in if 2 * r < u \<or> (2 * r = u \<and> even q) then q * u else (q + 1) * u)"

text \<open>\<^verbatim>\<open>.astype(float)\<close> on a captured group, which is a string of decimal digits.\<close>

definition to_float :: "string \<Rightarrow> real" where
  "to_float ds = real (round_f64 (decimal ds))"

text \<open>
  The float64 product of two floats that are whole and not negative, as the operands of
  lines 62-63 are: the exact product is a natural number, and the result is its rounding.
\<close>

definition float_mul :: "real \<Rightarrow> real \<Rightarrow> real" where
  "float_mul a k = real (round_f64 (nat \<lfloor>a * k\<rfloor>))"

text \<open>
  \<^verbatim>\<open>str.extract('(\d+)')\<close> searches (as \<^verbatim>\<open>re.search\<close> does) for the leftmost position
  where \<^verbatim>\<open>\d+\<close> matches, that is the first digit of the string, and the greedy \<^verbatim>\<open>+\<close>
  takes every digit that follows. No match gives NaN.
\<close>

definition extract_first_number :: "string \<Rightarrow> string option" where
  "extract_first_number s =
     (case dropWhile (\<lambda>c. \<not> is_digit c) s of
        [] \<Rightarrow> None
      | r \<Rightarrow> Some (takeWhile is_digit r))"

text \<open>
  The pattern \<^verbatim>\<open>\$(\d+)K-\$(\d+)K\<close> tried at the start of a string. \<open>expect\<close> consumes a
  literal; \<open>digits1\<close> is the greedy \<^verbatim>\<open>(\d+)\<close>. Each group is followed by the literal
  \<^verbatim>\<open>K\<close>, which is no digit, so giving digits back by backtracking can never succeed and
  the greedy choice is the only one.
\<close>

fun expect :: "string \<Rightarrow> string \<Rightarrow> string option" where
  "expect [] s = Some s"
| "expect (p # ps) [] = None"
| "expect (p # ps) (c # cs) = (if p = c then expect ps cs else None)"

definition digits1 :: "string \<Rightarrow> (string \<times> string) option" where
  "digits1 s =
     (let d = takeWhile is_digit s
      in if d = [] then None else Some (d, dropWhile is_digit s))"

definition match_range_here :: "string \<Rightarrow> (string \<times> string) option" where
  "match_range_here s = do {
     s1 \<leftarrow> expect ''$'' s;
     (a, s2) \<leftarrow> digits1 s1;
     s3 \<leftarrow> expect ''K-$'' s2;
     (b, s4) \<leftarrow> digits1 s3;
     _ \<leftarrow> expect ''K'' s4;
     Some (a, b)
   }"

text \<open>
  \<^verbatim>\<open>str.extract(r'\$(\d+)K-\$(\d+)K')\<close>: the pattern is searched from left to right and
  the first position where it matches gives the two captured groups.
\<close>

fun search_range :: "string \<Rightarrow> (string \<times> string) option" where
  "search_range [] = match_range_here []"
| "search_range (c # cs) =
     (case match_range_here (c # cs) of
        Some g \<Rightarrow> Some g
      | None \<Rightarrow> search_range cs)"

text \<open>
  Float arithmetic on cells: NaN in either operand gives NaN. The product is the rounded
  one of lines 62-63.
\<close>

definition nan_add :: "real option \<Rightarrow> real option \<Rightarrow> real option" where
  "nan_add x y = do { a \<leftarrow> x; b \<leftarrow> y; Some (a + b) }"

definition nan_mul :: "real option \<Rightarrow> real \<Rightarrow> real option" where
  "nan_mul x k = map_option (\<lambda>a. float_mul a k) x"

definition nan_div :: "real option \<Rightarrow> real \<Rightarrow> real option" where
  "nan_div x k = map_option (\<lambda>a. a / k) x"

text \<open>
  Line 62: \<^verbatim>\<open>df['Salary Estimate'].str.extract('(\d+)').astype(float) * 1000\<close>,
  elementwise; a missing salary estimate stays missing.
\<close>

definition Salary_Min_of :: "string option \<Rightarrow> real option" where
  "Salary_Min_of est =
     nan_mul (map_option to_float (Option.bind est extract_first_number)) 1000"

text \<open>
  Line 63: \<^verbatim>\<open>.str.extract(r'\$(\d+)K-\$(\d+)K').iloc[:, 1].astype(float) * 1000\<close>:
  column 1 is the second group.
\<close>

definition Salary_Max_of :: "string option \<Rightarrow> real option" where
  "Salary_Max_of est =
     nan_mul (map_option (to_float \<circ> snd) (Option.bind est search_range)) 1000"

text \<open>Line 64: \<^verbatim>\<open>(df['Salary_Min'] + df['Salary_Max']) / 2\<close>.\<close>

definition Avg_Salary_of :: "real option \<Rightarrow> real option \<Rightarrow> real option" where
  "Avg_Salary_of mn mx = nan_div (nan_add mn mx) 2"

text \<open>Lines 62-64 on one row, and on the whole frame.\<close>

definition add_salary_columns :: "csv_row \<Rightarrow> df_row" where
  "add_salary_columns r =
     (let mn = Salary_Min_of (Salary_Estimate r);
          mx = Salary_Max_of (Salary_Estimate r)
      in csv_row.extend r (df_row.fields mn mx (Avg_Salary_of mn mx)))"

definition preprocess :: "csv_row list \<Rightarrow> df_row list" where
  "preprocess df = map add_salary_columns df"

text \<open>
  The specification's reading of the pattern: the text \<^verbatim>\<open>$<a>K-$<b>K\<close> occurs in \<open>s\<close>
  after the prefix \<open>pre\<close>, with \<open>a\<close> and \<open>b\<close> non-empty strings of digits.
\<close>

definition range_occurs :: "string \<Rightarrow> string \<Rightarrow> string \<Rightarrow> string \<Rightarrow> string \<Rightarrow> bool" where
  "range_occurs s pre a b rest \<longleftrightarrow>
     s = pre @ ''$'' @ a @ ''K-$'' @ b @ ''K'' @ rest \<and>
     a \<noteq> [] \<and> list_all is_digit a \<and> b \<noteq> [] \<and> list_all is_digit b"

text \<open>No occurrence of the pattern starts before the end of \<open>pre\<close>.\<close>

definition leftmost :: "string \<Rightarrow> string \<Rightarrow> bool" where
  "leftmost s pre \<longleftrightarrow>
     (\<forall>pre' a' b' rest'. range_occurs s pre' a' b' rest' \<longrightarrow> length pre \<le> length pre')"

section \<open>Cleaning (line 67)\<close>

text \<open>
  \<^verbatim>\<open>df.dropna(subset=[...])\<close> drops a row when any column of the subset is missing in
  it (\<^verbatim>\<open>how='any'\<close> is the default) and keeps the other rows in order. A column of the
  subset is given by its test for a missing cell.
\<close>

definition isna :: "'a option \<Rightarrow> bool" where
  "isna v \<longleftrightarrow> v = None"

definition dropna_subset :: "('r \<Rightarrow> bool) list \<Rightarrow> 'r list \<Rightarrow> 'r list" where
  "dropna_subset cols df = filter (\<lambda>r. \<not> list_ex (\<lambda>missing. missing r) cols) df"

definition df_clean :: "df_row list \<Rightarrow> df_row list" where
  "df_clean df = dropna_subset [isna \<circ> Job_Title, isna \<circ> Sector, isna \<circ> Rating] df"

section \<open>Filtering (lines 92-96)\<close>

text \<open>
  \<^verbatim>\<open>Series.isin(values)\<close>: one boolean per cell. The values come from a multiselect
  over the strings of the column, so they hold no NaN and a missing cell is never a member.
\<close>

definition isin :: "'a option list \<Rightarrow> 'a list \<Rightarrow> bool list" where
  "isin col vals = map (\<lambda>v. case v of None \<Rightarrow> False | Some x \<Rightarrow> x \<in> set vals) col"

text \<open>\<^verbatim>\<open>Series >= scalar\<close>: a comparison with NaN is false.\<close>

definition ge_scalar :: "real option list \<Rightarrow> real \<Rightarrow> bool list" where
  "ge_scalar col k = map (\<lambda>v. case v of None \<Rightarrow> False | Some x \<Rightarrow> k \<le> x) col"

text \<open>The elementwise \<^verbatim>\<open>&\<close> of two masks, and the selection \<^verbatim>\<open>df[mask]\<close>.\<close>

definition mask_and :: "bool list \<Rightarrow> bool list \<Rightarrow> bool list" where
  "mask_and xs ys = map2 (\<and>) xs ys"

definition boolean_index :: "'r list \<Rightarrow> bool list \<Rightarrow> 'r list" where
  "boolean_index df keep = map fst (filter snd (zip df keep))"

definition filtered_df :: "df_row list \<Rightarrow> string list \<Rightarrow> string list \<Rightarrow> real \<Rightarrow> df_row list" where
  "filtered_df dfc selected_sectors selected_sizes min_rating =
     boolean_index dfc
       (mask_and
          (mask_and (isin (map Sector dfc) selected_sectors)
                    (isin (map Size dfc) selected_sizes))
          (ge_scalar (map Rating dfc) min_rating))"

text \<open>The script from the loaded frame to the filtered view: lines 62-67, then 92-96.\<close>

definition dashboard_view ::
  "csv_row list \<Rightarrow> string list \<Rightarrow> string list \<Rightarrow> real \<Rightarrow> df_row list" where
  "dashboard_view df selected_sectors selected_sizes min_rating =
     filtered_df (df_clean (preprocess df)) selected_sectors selected_sizes min_rating"

text \<open>
  The specification's inclusion rule, in its words: the sector is a member of the selected
  sectors, the size a member of the selected sizes, and the rating at least the minimum.
\<close>

definition matches :: "string set \<Rightarrow> string set \<Rightarrow> real \<Rightarrow> df_row \<Rightarrow> bool" where
  "matches sectors sizes min_rating r \<longleftrightarrow>
     (\<exists>s. Sector r = Some s \<and> s \<in> sectors) \<and>
     (\<exists>z. Size r = Some z \<and> z \<in> sizes) \<and>
     (\<exists>x. Rating r = Some x \<and> min_rating \<le> x)"

section \<open>Summary metrics (lines 100-115)\<close>

text \<open>
  \<^verbatim>\<open>Series.mean()\<close> skips NaN (\<^verbatim>\<open>skipna=True\<close>): pandas counts the cells that are
  not missing, sums the column with every missing cell replaced by 0, and divides; with no
  valid cell the result is NaN, not an exception.
\<close>

definition series_mean :: "real option list \<Rightarrow> real option" where
  "series_mean col =
     (let count = length (filter (\<lambda>v. \<not> isna v) col);
          the_sum = sum_list (map (\<lambda>v. case v of None \<Rightarrow> 0 | Some x \<Rightarrow> x) col)
      in if count > 0 then Some (the_sum / real count) else None)"

text \<open>\<^verbatim>\<open>Series.nunique()\<close>: the number of distinct values, NaN left out.\<close>

definition nunique :: "'a option list \<Rightarrow> nat" where
  "nunique col = length (remdups (filter (\<lambda>v. \<not> isna v) col))"

record summary_metrics =
  total_jobs :: nat
  avg_rating :: "real option"
  avg_salary :: "real option"
  unique_companies :: nat

definition summary :: "df_row list \<Rightarrow> summary_metrics" where
  "summary view =
     \<lparr> total_jobs = length view,
       avg_rating = series_mean (map Rating view),
       avg_salary = series_mean (map Avg_Salary view),
       unique_companies = nunique (map Company_Name view) \<rparr>"

text \<open>
  The specification's mean of the average salary: the values of the records whose
  \<open>Avg_Salary\<close> is defined, in order.
\<close>

definition defined_avg_salaries :: "df_row list \<Rightarrow> real list" where
  "defined_avg_salaries view = map (the \<circ> Avg_Salary) (filter (\<lambda>r. Avg_Salary r \<noteq> None) view)"

section \<open>Pagination (lines 215-230)\<close>

text \<open>
  Python's \<^verbatim>\<open>//\<close> and \<^verbatim>\<open>%\<close> round towards minus infinity, as \<open>div\<close> and \<open>mod\<close> on
  \<open>int\<close> do. The page size comes from a slider over 5..50, so it is never 0.
\<close>

definition total_pages :: "'r list \<Rightarrow> int \<Rightarrow> int" where
  "total_pages view page_size =
     (int (length view) div page_size) + (if int (length view) mod page_size \<noteq> 0 then 1 else 0)"

text \<open>
  A slice \<^verbatim>\<open>[start:stop]\<close> of a sequence of length \<open>n\<close>: a negative bound counts from
  the end, and every bound is clamped to \<open>0..n\<close>; nothing raises.
\<close>

definition slice_index :: "nat \<Rightarrow> int \<Rightarrow> nat" where
  "slice_index n i = (if i < 0 then nat (max 0 (int n + i)) else min (nat i) n)"

definition iloc_slice :: "'r list \<Rightarrow> int \<Rightarrow> int \<Rightarrow> 'r list" where
  "iloc_slice xs start stop =
     (let s = slice_index (length xs) start; e = slice_index (length xs) stop
      in take (e - s) (drop s xs))"

text \<open>
  \<^verbatim>\<open>filtered_df[available_columns]\<close>: the eight display columns are the columns of the
  loaded file, so the projection drops the three derived columns.
\<close>

definition display :: "df_row \<Rightarrow> csv_row" where
  "display r = csv_row.truncate r"

definition page_rows :: "df_row list \<Rightarrow> int \<Rightarrow> int \<Rightarrow> csv_row list" where
  "page_rows view page_size page_number =
     (let start_idx = (page_number - 1) * page_size;
          end_idx = start_idx + page_size
      in iloc_slice (map display view) start_idx end_idx)"

text \<open>The options of the page selector, \<^verbatim>\<open>range(1, total_pages + 1)\<close>.\<close>

definition page_options :: "'r list \<Rightarrow> int \<Rightarrow> int list" where
  "page_options view page_size = [1..total_pages view page_size]"

text \<open>The table is shown only when there is a page; \<open>None\<close> is no table.\<close>

definition show_table :: "df_row list \<Rightarrow> int \<Rightarrow> int \<Rightarrow> csv_row list option" where
  "show_table view page_size page_number =
     (if total_pages view page_size > 0 then Some (page_rows view page_size page_number) else None)"

section \<open>Example data\<close>


text \<open>
  The three records of the specification's end-to-end example, and a loaded row with no
  rating.
\<close>

definition tech_large :: csv_row where
  "tech_large = \<lparr> Job_Title = Some ''Data Scientist'', Company_Name = Some ''Acme'',
     Location = Some ''Austin, TX'', Salary_Estimate = Some ''$80K-$120K (Glassdoor est.)'',
     Rating = Some 4.0, Sector = Some ''Tech'', Size = Some ''Large'', Revenue = None \<rparr>"

definition tech_small :: csv_row where
  "tech_small = \<lparr> Job_Title = Some ''Data Engineer'', Company_Name = Some ''Initech'',
     Location = Some ''Boston, MA'', Salary_Estimate = Some ''$50K-$90K'',
     Rating = Some 2.0, Sector = Some ''Tech'', Size = Some ''Small'', Revenue = None \<rparr>"

definition finance_large :: csv_row where
  "finance_large = \<lparr> Job_Title = Some ''Quantitative Analyst'', Company_Name = Some ''Globex'',
     Location = Some ''New York, NY'', Salary_Estimate = None,
     Rating = Some 4.5, Sector = Some ''Finance'', Size = Some ''Large'', Revenue = None \<rparr>"

definition unrated :: csv_row where
  "unrated = \<lparr> Job_Title = Some ''Data Analyst'', Company_Name = Some ''Hooli'',
     Location = None, Salary_Estimate = Some ''$60K-$70K'',
     Rating = None, Sector = Some ''Tech'', Size = Some ''Large'', Revenue = None \<rparr>"

text \<open>A view of 25 records, told apart by their rating.\<close>

definition numbered :: "nat \<Rightarrow> df_row" where
  "numbered i = add_salary_columns (tech_large \<lparr> Rating := Some (real i) \<rparr>)"

definition view25 :: "df_row list" where
  "view25 = map numbered [0..<25]"

section \<open>Properties of the salary extraction\<close>

subsection \<open>Rounding to float64\<close>

lemma pow2_step: "(2::nat) ^ (m + Suc k) = 2 ^ (m + k) * 2"
  by (simp only: add_Suc_right power_Suc mult.commute)

lemma excess_bits_le: "n < 2 ^ (53 + k) \<Longrightarrow> excess_bits n \<le> k"
proof (induction k arbitrary: n)
  case 0
  then show ?case by (simp add: excess_bits.simps)
next
  case (Suc k)
  show ?case
  proof (cases "n < 2 ^ 53")
    case True
    then show ?thesis by (simp add: excess_bits.simps)
  next
    case False
    from Suc.prems have "n < 2 ^ (53 + k) * 2" by (simp only: pow2_step)
    then have "n div 2 < 2 ^ (53 + k)" by (rule less_mult_imp_div_less)
    then have "excess_bits (n div 2) \<le> k" by (rule Suc.IH)
    with False show ?thesis by (subst excess_bits.simps) simp
  qed
qed

lemma excess_bits_eq:
  "2 ^ (52 + k) \<le> n \<Longrightarrow> n < 2 ^ (53 + k) \<Longrightarrow> excess_bits n = k"
proof (induction k arbitrary: n)
  case 0
  then show ?case by (simp add: excess_bits.simps)
next
  case (Suc k)
  have "(2::nat) ^ 53 \<le> 2 ^ (52 + Suc k)" by (rule power_increasing) simp_all
  with Suc.prems(1) have ge: "\<not> n < 2 ^ 53" by simp
  from Suc.prems(1) have "2 ^ (52 + k) * 2 \<le> n" by (simp only: pow2_step)
  then have lo: "2 ^ (52 + k) \<le> n div 2" by (simp add: less_eq_div_iff_mult_less_eq)
  from Suc.prems(2) have "n < 2 ^ (53 + k) * 2" by (simp only: pow2_step)
  then have hi: "n div 2 < 2 ^ (53 + k)" by (rule less_mult_imp_div_less)
  from lo hi have "excess_bits (n div 2) = k" by (rule Suc.IH)
  with ge show ?case by (subst excess_bits.simps) simp
qed

lemma round_f64_exact:
  assumes "2 ^ excess_bits n dvd n"
  shows "round_f64 n = n"
  using assms by (simp add: round_f64_def Let_def)

lemma round_f64_multiple:
  assumes "n < 2 ^ (53 + k)" and "2 ^ k dvd n"
  shows "round_f64 n = n"
proof -
  have "excess_bits n \<le> k" using assms(1) by (rule excess_bits_le)
  then have "(2::nat) ^ excess_bits n dvd 2 ^ k" by (simp add: le_imp_power_dvd)
  from this assms(2) have "2 ^ excess_bits n dvd n" by (rule dvd_trans)
  then show ?thesis by (rule round_f64_exact)
qed

lemma round_f64_small: "n < 2 ^ 53 \<Longrightarrow> round_f64 n = n"
  using round_f64_multiple [of n 0] by simp

text \<open>
  A thousandfold below \<open>2^56\<close> is a multiple of 8 with at most three excess bits, so the
  conversion and the product of lines 62-63 are both exact.
\<close>

lemma scaled_exact:
  assumes "decimal d * 1000 < 2 ^ 56"
  shows "float_mul (to_float d) 1000 = real (decimal d) * 1000"
proof -
  from assms have "decimal d < 2 ^ 53" by simp
  then have t: "to_float d = real (decimal d)"
    by (simp add: to_float_def round_f64_small)
  have "(2::nat) ^ 3 dvd decimal d * 1000" by simp
  with assms have "round_f64 (decimal d * 1000) = decimal d * 1000"
    using round_f64_multiple [of "decimal d * 1000" 3] by simp
  moreover have "nat \<lfloor>real (decimal d) * 1000\<rfloor> = decimal d * 1000"
    by (metis floor_of_nat nat_int of_nat_mult of_nat_numeral)
  ultimately show ?thesis by (simp add: float_mul_def t)
qed

subsection \<open>The range pattern\<close>

lemma expect_Some: "expect p s = Some r \<longleftrightarrow> s = p @ r"
  by (induction p s rule: expect.induct) auto

lemma not_digit_K [simp]: "\<not> is_digit CHR ''K''"
  by (simp add: is_digit_def)

lemma digits1_Some:
  "digits1 s = Some (d, r) \<longleftrightarrow> d \<noteq> [] \<and> d = takeWhile is_digit s \<and> r = dropWhile is_digit s"
  by (auto simp: digits1_def Let_def)

lemma digits1_split:
  assumes "digits1 s = Some (d, r)"
  shows "s = d @ r" and "d \<noteq> []" and "list_all is_digit d"
proof -
  from assms have d: "d = takeWhile is_digit s" and r: "r = dropWhile is_digit s" and ne: "d \<noteq> []"
    unfolding digits1_Some by blast+
  show "s = d @ r" by (simp add: d r)
  show "d \<noteq> []" by (rule ne)
  show "list_all is_digit d"
    unfolding d list_all_iff by (auto dest: set_takeWhileD)
qed

lemma takeWhile_digits_stop:
  "list_all is_digit d \<Longrightarrow> \<not> is_digit c \<Longrightarrow> takeWhile is_digit (d @ c # r) = d"
  by (induction d) auto

lemma dropWhile_digits_stop:
  "list_all is_digit d \<Longrightarrow> \<not> is_digit c \<Longrightarrow> dropWhile is_digit (d @ c # r) = c # r"
  by (induction d) auto

lemma digits1_stop:
  "d \<noteq> [] \<Longrightarrow> list_all is_digit d \<Longrightarrow> \<not> is_digit c \<Longrightarrow> digits1 (d @ c # r) = Some (d, c # r)"
  by (simp add: digits1_def takeWhile_digits_stop dropWhile_digits_stop)

lemma match_here_complete:
  assumes "range_occurs s [] a b rest"
  shows "match_range_here s = Some (a, b)"
  using assms
  by (simp add: range_occurs_def match_range_here_def digits1_stop)

lemma match_here_sound:
  assumes "match_range_here s = Some (a, b)"
  shows "\<exists>rest. range_occurs s [] a b rest"
proof -
  from assms obtain s1 s2 s3 s4 s5 where
    e1: "expect ''$'' s = Some s1" and d1: "digits1 s1 = Some (a, s2)" and
    e2: "expect ''K-$'' s2 = Some s3" and d2: "digits1 s3 = Some (b, s4)" and
    e3: "expect ''K'' s4 = Some s5"
    by (auto simp: match_range_here_def split: Option.bind_splits)
  have "s = ''$'' @ s1" using e1 by (simp only: expect_Some)
  moreover have "s1 = a @ s2" using d1 by (rule digits1_split)
  moreover have "s2 = ''K-$'' @ s3" using e2 by (simp only: expect_Some)
  moreover have "s3 = b @ s4" using d2 by (rule digits1_split)
  moreover have "s4 = ''K'' @ s5" using e3 by (simp only: expect_Some)
  ultimately have "s = [] @ ''$'' @ a @ ''K-$'' @ b @ ''K'' @ s5" by simp
  with digits1_split(2,3)[OF d1] digits1_split(2,3)[OF d2]
  have "range_occurs s [] a b s5" unfolding range_occurs_def by blast
  then show ?thesis ..
qed

lemma range_occurs_Cons:
  "range_occurs (c # cs) (c # pre) a b rest \<longleftrightarrow> range_occurs cs pre a b rest"
  by (simp add: range_occurs_def)

lemma range_occurs_later:
  assumes "range_occurs (c # cs) pre a b rest" and "pre \<noteq> []"
  shows "\<exists>p. pre = c # p \<and> range_occurs cs p a b rest"
  using assms by (cases pre) (auto simp: range_occurs_def)

lemma range_occurs_Nil: "\<not> range_occurs [] pre a b rest"
  by (simp add: range_occurs_def)

lemma search_sound:
  "search_range s = Some (a, b) \<Longrightarrow>
     \<exists>pre rest. range_occurs s pre a b rest \<and> leftmost s pre"
proof (induction s)
  case Nil
  then show ?case
    by (auto dest!: match_here_sound simp: range_occurs_Nil)
next
  case (Cons c cs)
  show ?case
  proof (cases "match_range_here (c # cs)")
    case (Some g)
    with Cons.prems have "match_range_here (c # cs) = Some (a, b)" by simp
    then obtain rest where "range_occurs (c # cs) [] a b rest"
      by (blast dest: match_here_sound)
    moreover have "leftmost (c # cs) []" by (simp add: leftmost_def)
    ultimately show ?thesis by blast
  next
    case None
    with Cons.prems have "search_range cs = Some (a, b)" by simp
    then obtain pre rest where occ: "range_occurs cs pre a b rest" and lm: "leftmost cs pre"
      using Cons.IH by blast
    have "range_occurs (c # cs) (c # pre) a b rest"
      using occ by (simp add: range_occurs_Cons)
    moreover have "leftmost (c # cs) (c # pre)"
      unfolding leftmost_def
    proof (intro allI impI)
      fix pre' a' b' rest'
      assume o': "range_occurs (c # cs) pre' a' b' rest'"
      have "pre' \<noteq> []"
      proof
        assume "pre' = []"
        with o' have "match_range_here (c # cs) = Some (a', b')"
          by (simp add: match_here_complete)
        with None show False by simp
      qed
      with o' obtain p where p: "pre' = c # p" and "range_occurs cs p a' b' rest'"
        by (blast dest: range_occurs_later)
      with lm have "length pre \<le> length p" unfolding leftmost_def by blast
      then show "length (c # pre) \<le> length pre'" by (simp add: p)
    qed
    ultimately show ?thesis by blast
  qed
qed

lemma search_complete:
  "range_occurs s pre a b rest \<Longrightarrow> search_range s \<noteq> None"
proof (induction pre arbitrary: s)
  case Nil
  then have m: "match_range_here s = Some (a, b)" by (rule match_here_complete)
  then show ?case by (cases s) auto
next
  case (Cons c pre)
  then obtain cs where s: "s = c # cs" by (auto simp: range_occurs_def)
  with Cons.prems have "range_occurs cs pre a b rest" by (simp add: range_occurs_Cons)
  then have "search_range cs \<noteq> None" by (rule Cons.IH)
  then show ?case by (simp add: s split: option.splits)
qed

lemma range_occurs_drop:
  assumes "range_occurs s pre a b rest"
  shows "range_occurs (drop (length pre) s) [] a b rest"
  using assms by (simp add: range_occurs_def)

lemma search_leftmost:
  assumes occ: "range_occurs s pre a b rest" and lm: "leftmost s pre"
  shows "search_range s = Some (a, b)"
proof -
  from search_complete[OF occ] obtain a' b' where sr: "search_range s = Some (a', b')"
    by auto
  then obtain pre' rest' where occ': "range_occurs s pre' a' b' rest'" and lm': "leftmost s pre'"
    by (blast dest: search_sound)
  have len: "length pre = length pre'"
    using occ occ' lm lm' unfolding leftmost_def by (meson le_antisym)
  have "match_range_here (drop (length pre) s) = Some (a, b)"
    using range_occurs_drop[OF occ] by (rule match_here_complete)
  moreover have "match_range_here (drop (length pre) s) = Some (a', b')"
    using range_occurs_drop[OF occ'] len by (simp add: match_here_complete)
  ultimately have "a' = a \<and> b' = b" by simp
  with sr show ?thesis by simp
qed

lemma leftmostI:
  assumes "\<forall>k<length pre. match_range_here (drop k s) = None"
  shows "leftmost s pre"
  unfolding leftmost_def
proof (intro allI impI)
  fix pre' a' b' rest'
  assume occ: "range_occurs s pre' a' b' rest'"
  show "length pre \<le> length pre'"
  proof (rule ccontr)
    assume "\<not> length pre \<le> length pre'"
    with assms have "match_range_here (drop (length pre') s) = None" by simp
    moreover have "match_range_here (drop (length pre') s) = Some (a', b')"
      using range_occurs_drop[OF occ] by (rule match_here_complete)
    ultimately show False by simp
  qed
qed

lemma Salary_Max_of_Some:
  "Salary_Max_of (Some s) =
     map_option (\<lambda>g. float_mul (to_float (snd g)) 1000) (search_range s)"
  by (simp add: Salary_Max_of_def nan_mul_def option.map_comp comp_def)

text \<open>
  Claim C2, as amended. Whenever the pattern \<^verbatim>\<open>$<a>K-$<b>K\<close> occurs in the salary
  estimate and the number \<open>b\<close> of its leftmost occurrence has \<open>b * 1000 < 2^56\<close>, the
  derived \<open>Salary_Max\<close> is \<open>b * 1000\<close> exactly; in particular this holds for every such
  estimate that starts with the pattern. When the pattern occurs nowhere in the estimate,
  or the estimate is missing, \<open>Salary_Max\<close> is undefined, and it is undefined in no other
  case.
\<close>

theorem Salary_Max_spec:
  "(a \<noteq> [] \<and> list_all is_digit a \<and> b \<noteq> [] \<and> list_all is_digit b \<and>
      decimal b * 1000 < 2 ^ 56 \<longrightarrow>
      Salary_Max_of (Some (''$'' @ a @ ''K-$'' @ b @ ''K'' @ rest)) =
        Some (real (decimal b) * 1000))
   \<and> (range_occurs s pre a b rest \<and> leftmost s pre \<and> decimal b * 1000 < 2 ^ 56 \<longrightarrow>
      Salary_Max_of (Some s) = Some (real (decimal b) * 1000))
   \<and> ((\<nexists>pre a b rest. range_occurs s pre a b rest) \<longrightarrow> Salary_Max_of (Some s) = None)
   \<and> (Salary_Max_of (Some s) = None \<longrightarrow> (\<nexists>pre a b rest. range_occurs s pre a b rest))
   \<and> Salary_Max_of None = None"
proof (intro conjI impI)
  assume h: "a \<noteq> [] \<and> list_all is_digit a \<and> b \<noteq> [] \<and> list_all is_digit b \<and>
      decimal b * 1000 < 2 ^ 56"
  let ?s = "''$'' @ a @ ''K-$'' @ b @ ''K'' @ rest"
  have "range_occurs ?s [] a b rest" using h by (simp add: range_occurs_def)
  moreover have "leftmost ?s []" by (simp add: leftmost_def)
  ultimately have "search_range ?s = Some (a, b)" by (rule search_leftmost)
  then have "Salary_Max_of (Some ?s) = Some (float_mul (to_float b) 1000)"
    by (simp only: Salary_Max_of_Some option.map snd_conv)
  with h show "Salary_Max_of (Some ?s) = Some (real (decimal b) * 1000)"
    by (simp only: scaled_exact)
next
  assume h: "range_occurs s pre a b rest \<and> leftmost s pre \<and> decimal b * 1000 < 2 ^ 56"
  then have "search_range s = Some (a, b)" by (blast intro: search_leftmost)
  then have "Salary_Max_of (Some s) = Some (float_mul (to_float b) 1000)"
    by (simp only: Salary_Max_of_Some option.map snd_conv)
  with h show "Salary_Max_of (Some s) = Some (real (decimal b) * 1000)"
    by (simp only: scaled_exact)
next
  assume "\<nexists>pre a b rest. range_occurs s pre a b rest"
  then have "search_range s = None"
    by (cases "search_range s") (auto dest: search_sound)
  then show "Salary_Max_of (Some s) = None" by (simp add: Salary_Max_of_Some)
next
  assume "Salary_Max_of (Some s) = None"
  then have "search_range s = None" by (simp add: Salary_Max_of_Some)
  then show "\<nexists>pre a b rest. range_occurs s pre a b rest"
    by (blast dest: search_complete)
next
  show "Salary_Max_of None = None" by (simp add: Salary_Max_of_def nan_mul_def)
qed

text \<open>The theorem at a posting with a prefix before the range, and at an hourly wage.\<close>

lemma no_match_ex1: "match_range_here (drop k ''Salary: $80K-$120K (Glassdoor est.)'') = None" if "k < 8"
proof -
  from that have "k = 0 \<or> k = 1 \<or> k = 2 \<or> k = 3 \<or> k = 4 \<or> k = 5 \<or> k = 6 \<or> k = 7"
    by arith
  then show ?thesis
    by (elim disjE) (simp_all add: match_range_here_def digits1_def is_digit_def)
qed

theorem Salary_Max_spec_witness:
  "range_occurs ''Salary: $80K-$120K (Glassdoor est.)'' ''Salary: '' ''80'' ''120'' '' (Glassdoor est.)''
   \<and> leftmost ''Salary: $80K-$120K (Glassdoor est.)'' ''Salary: ''
   \<and> decimal ''120'' * 1000 < 2 ^ 56
   \<and> Salary_Max_of (Some ''Salary: $80K-$120K (Glassdoor est.)'') = Some 120000
   \<and> Salary_Max_of (Some ''$80K-$120K (Glassdoor est.)'') = Some 120000
   \<and> (\<nexists>pre a b rest. range_occurs ''$25 Per Hour'' pre a b rest)
   \<and> Salary_Max_of (Some ''$25 Per Hour'') = None"
proof -
  let ?s = "''Salary: $80K-$120K (Glassdoor est.)''"
  have occ: "range_occurs ?s ''Salary: '' ''80'' ''120'' '' (Glassdoor est.)''"
    by (simp add: range_occurs_def is_digit_def)
  have "\<forall>k<length ''Salary: ''. match_range_here (drop k ?s) = None"
    by (simp add: no_match_ex1)
  then have lm: "leftmost ?s ''Salary: ''" by (rule leftmostI)
  have dg: "''80'' \<noteq> [] \<and> list_all is_digit ''80'' \<and> ''120'' \<noteq> [] \<and> list_all is_digit ''120''"
    by (simp add: is_digit_def)
  have v: "decimal ''120'' = 120" by (simp add: decimal_def digit_value_def)
  have sr: "search_range ''$25 Per Hour'' = None"
    by (simp add: match_range_here_def digits1_def is_digit_def)
  have none: "\<nexists>pre a b rest. range_occurs ''$25 Per Hour'' pre a b rest"
    using sr by (blast dest: search_complete)
  from Salary_Max_spec [of "''80''" "''120''" "'' (Glassdoor est.)''" ?s "''Salary: ''"]
       Salary_Max_spec [of "''80''" "''120''" "'' (Glassdoor est.)''" "''$25 Per Hour''" "[]"]
       occ lm dg none
  show ?thesis by (simp add: v)
qed

text \<open>
  The claim as it was stated, with no bound on \<open>b\<close>, fails: for \<open>b = 72057594037929\<close> the
  product \<open>b * 1000\<close> lies between \<open>2^56\<close> and \<open>2^57\<close>, where the float64 values are the
  multiples of 16, and the script stores 72057594037928992.
\<close>

theorem Salary_Max_exact_counterexample:
  "range_occurs ''$1K-$72057594037929K'' [] ''1'' ''72057594037929'' []
   \<and> leftmost ''$1K-$72057594037929K'' []
   \<and> decimal ''72057594037929'' * 1000 = 72057594037929000
   \<and> Salary_Max_of (Some ''$1K-$72057594037929K'') = Some 72057594037928992
   \<and> Salary_Max_of (Some ''$1K-$72057594037929K'') \<noteq>
       Some (real (decimal ''72057594037929'') * 1000)"
proof -
  have occ: "range_occurs ''$1K-$72057594037929K'' [] ''1'' ''72057594037929'' []"
    by (simp add: range_occurs_def is_digit_def)
  have lm: "leftmost ''$1K-$72057594037929K'' []" by (simp add: leftmost_def)
  have d: "decimal ''72057594037929'' = 72057594037929"
    by (simp add: decimal_def digit_value_def)
  have t: "to_float ''72057594037929'' = 72057594037929"
    by (simp add: to_float_def d round_f64_small)
  have "excess_bits 72057594037929000 = 4"
    by (rule excess_bits_eq) simp_all
  then have r: "round_f64 72057594037929000 = 72057594037928992"
    by (simp add: round_f64_def Let_def)
  have m: "float_mul (to_float ''72057594037929'') 1000 = 72057594037928992"
    by (simp add: float_mul_def t r)
  from occ lm have "search_range ''$1K-$72057594037929K'' = Some (''1'', ''72057594037929'')"
    by (rule search_leftmost)
  then have v: "Salary_Max_of (Some ''$1K-$72057594037929K'') = Some 72057594037928992"
    by (simp only: Salary_Max_of_Some option.map snd_conv m)
  from occ lm d v show ?thesis by simp
qed

subsection \<open>The first number\<close>

lemma dropWhile_nondigits:
  "list_all (\<lambda>c. \<not> is_digit c) pre \<Longrightarrow> d \<noteq> [] \<Longrightarrow> list_all is_digit d \<Longrightarrow>
     dropWhile (\<lambda>c. \<not> is_digit c) (pre @ d @ rest) = d @ rest"
  by (induction pre) (auto simp: neq_Nil_conv)

lemma takeWhile_digits_end:
  "list_all is_digit d \<Longrightarrow> rest = [] \<or> \<not> is_digit (hd rest) \<Longrightarrow>
     takeWhile is_digit (d @ rest) = d"
  by (induction d) (auto simp: neq_Nil_conv takeWhile_eq_Nil_iff)

lemma extract_first_number_run:
  assumes "list_all (\<lambda>c. \<not> is_digit c) pre" and "d \<noteq> []" and "list_all is_digit d"
    and "rest = [] \<or> \<not> is_digit (hd rest)"
  shows "extract_first_number (pre @ d @ rest) = Some d"
proof -
  from assms(2) obtain c cs where d: "d = c # cs" by (cases d) auto
  have "dropWhile (\<lambda>c. \<not> is_digit c) (pre @ d @ rest) = d @ rest"
    using assms(1-3) by (rule dropWhile_nondigits)
  moreover have "takeWhile is_digit (d @ rest) = d"
    using assms(3,4) by (rule takeWhile_digits_end)
  ultimately show ?thesis
    unfolding extract_first_number_def by (simp add: d)
qed

lemma extract_first_number_None:
  "extract_first_number s = None \<longleftrightarrow> list_all (\<lambda>c. \<not> is_digit c) s"
proof (cases "dropWhile (\<lambda>c. \<not> is_digit c) s")
  case Nil
  then have "list_all (\<lambda>c. \<not> is_digit c) s"
    by (simp add: list_all_iff)
  moreover have "extract_first_number s = None"
    by (simp only: extract_first_number_def Nil list.case)
  ultimately show ?thesis by simp
next
  case (Cons c cs)
  then have "\<not> list_all (\<lambda>c. \<not> is_digit c) s"
    using dropWhile_eq_Nil_conv [of "\<lambda>c. \<not> is_digit c" s] by (simp add: list_all_iff)
  moreover have "extract_first_number s \<noteq> None"
    by (simp only: extract_first_number_def Cons list.case) simp
  ultimately show ?thesis by simp
qed

lemma Salary_Min_of_Some:
  "Salary_Min_of (Some s) =
     map_option (\<lambda>d. float_mul (to_float d) 1000) (extract_first_number s)"
  by (simp add: Salary_Min_of_def nan_mul_def option.map_comp comp_def)

text \<open>
  Claim C3, as amended. \<open>Salary_Min\<close> is taken from the first run of decimal digits of the
  salary estimate: the digits \<open>d\<close> that follow a digit-free prefix and end at the end of
  the string or before a character that is no digit. Whenever \<open>d * 1000 < 2^56\<close> it is
  \<open>d * 1000\<close> exactly. It is undefined exactly when the estimate holds no digit, or is
  missing. It need not be the lower bound \<open>a\<close> of the pattern \<^verbatim>\<open>$<a>K-$<b>K\<close>: there is
  an estimate where the two differ.
\<close>

theorem Salary_Min_spec:
  "(list_all (\<lambda>c. \<not> is_digit c) pre \<and> d \<noteq> [] \<and> list_all is_digit d \<and>
      (rest = [] \<or> \<not> is_digit (hd rest)) \<and> decimal d * 1000 < 2 ^ 56 \<longrightarrow>
      Salary_Min_of (Some (pre @ d @ rest)) = Some (real (decimal d) * 1000))
   \<and> (Salary_Min_of (Some s) = None \<longleftrightarrow> list_all (\<lambda>c. \<not> is_digit c) s)
   \<and> Salary_Min_of None = None
   \<and> (\<exists>s' pre' a b rest'. range_occurs s' pre' a b rest' \<and> leftmost s' pre' \<and>
         decimal a * 1000 < 2 ^ 56 \<and>
         Salary_Min_of (Some s') \<noteq> Some (real (decimal a) * 1000))"
proof (intro conjI impI)
  assume h: "list_all (\<lambda>c. \<not> is_digit c) pre \<and> d \<noteq> [] \<and> list_all is_digit d \<and>
      (rest = [] \<or> \<not> is_digit (hd rest)) \<and> decimal d * 1000 < 2 ^ 56"
  then have "extract_first_number (pre @ d @ rest) = Some d"
    by (blast intro: extract_first_number_run)
  then have "Salary_Min_of (Some (pre @ d @ rest)) = Some (float_mul (to_float d) 1000)"
    by (simp only: Salary_Min_of_Some option.map)
  with h show "Salary_Min_of (Some (pre @ d @ rest)) = Some (real (decimal d) * 1000)"
    by (simp only: scaled_exact)
next
  show "Salary_Min_of (Some s) = None \<longleftrightarrow> list_all (\<lambda>c. \<not> is_digit c) s"
    by (simp add: Salary_Min_of_Some extract_first_number_None)
next
  show "Salary_Min_of None = None" by (simp add: Salary_Min_of_def nan_mul_def)
next
  let ?s = "''401K plan, $80K-$120K''"
  have occ: "range_occurs ?s ''401K plan, '' ''80'' ''120'' []"
    by (simp add: range_occurs_def is_digit_def)
  have "match_range_here (drop k ?s) = None" if "k < 11" for k
  proof -
    from that have "k = 0 \<or> k = 1 \<or> k = 2 \<or> k = 3 \<or> k = 4 \<or> k = 5 \<or> k = 6 \<or> k = 7 \<or> k = 8
        \<or> k = 9 \<or> k = 10"
      by arith
    then show ?thesis
      by (elim disjE) (simp_all add: match_range_here_def digits1_def is_digit_def)
  qed
  then have lm: "leftmost ?s ''401K plan, ''"
    by (intro leftmostI) simp
  have mn: "Salary_Min_of (Some ?s) = Some 401000"
    by (simp add: Salary_Min_of_Some extract_first_number_def is_digit_def
        scaled_exact decimal_def digit_value_def)
  have d80: "decimal ''80'' = 80" by (simp add: decimal_def digit_value_def)
  then have b: "decimal ''80'' * 1000 < 2 ^ 56" by simp
  from mn d80 have "Salary_Min_of (Some ?s) \<noteq> Some (real (decimal ''80'') * 1000)" by simp
  then show "\<exists>s' pre' a b rest'. range_occurs s' pre' a b rest' \<and> leftmost s' pre' \<and>
         decimal a * 1000 < 2 ^ 56 \<and>
         Salary_Min_of (Some s') \<noteq> Some (real (decimal a) * 1000)"
    using occ lm b by blast
qed

text \<open>The theorem at an estimate with one bound, and at one with no digit.\<close>

theorem Salary_Min_spec_witness:
  "list_all (\<lambda>c. \<not> is_digit c) ''Up to $'' \<and> ''95'' \<noteq> [] \<and> list_all is_digit ''95''
   \<and> \<not> is_digit (hd ''K a year (3 openings)'')
   \<and> decimal ''95'' * 1000 < 2 ^ 56
   \<and> Salary_Min_of (Some ''Up to $95K a year (3 openings)'') = Some 95000
   \<and> list_all (\<lambda>c. \<not> is_digit c) ''Competitive''
   \<and> Salary_Min_of (Some ''Competitive'') = None"
proof -
  have h: "list_all (\<lambda>c. \<not> is_digit c) ''Up to $'' \<and> ''95'' \<noteq> [] \<and> list_all is_digit ''95''
      \<and> \<not> is_digit (hd ''K a year (3 openings)'')"
    by (simp add: is_digit_def)
  have n: "list_all (\<lambda>c. \<not> is_digit c) ''Competitive''"
    by (simp add: is_digit_def)
  have v: "decimal ''95'' = 95" by (simp add: decimal_def digit_value_def)
  from Salary_Min_spec [of "''Up to $''" "''95''" "''K a year (3 openings)''" "''Competitive''"] h n
  show ?thesis by (simp add: v)
qed

text \<open>
  The claim as it was stated, with no bound on the number, fails: 9007199254740993 is
  \<open>2^53 + 1\<close>, which the conversion to float64 rounds to \<open>2^53\<close>, and the script stores
  9007199254740992000.
\<close>

theorem Salary_Min_exact_counterexample:
  "list_all (\<lambda>c. \<not> is_digit c) ''$'' \<and> list_all is_digit ''9007199254740993''
   \<and> \<not> is_digit (hd ''K-$1K'')
   \<and> decimal ''9007199254740993'' * 1000 = 9007199254740993000
   \<and> Salary_Min_of (Some ''$9007199254740993K-$1K'') = Some 9007199254740992000
   \<and> Salary_Min_of (Some ''$9007199254740993K-$1K'') \<noteq>
       Some (real (decimal ''9007199254740993'') * 1000)"
proof -
  have h: "list_all (\<lambda>c. \<not> is_digit c) ''$'' \<and> list_all is_digit ''9007199254740993''
      \<and> \<not> is_digit (hd ''K-$1K'')"
    by (simp add: is_digit_def)
  have d: "decimal ''9007199254740993'' = 9007199254740993"
    by (simp add: decimal_def digit_value_def)
  have "excess_bits 9007199254740993 = 1"
    by (rule excess_bits_eq) simp_all
  then have "round_f64 9007199254740993 = 9007199254740992"
    by (simp add: round_f64_def Let_def)
  then have t: "to_float ''9007199254740993'' = 9007199254740992"
    by (simp add: to_float_def d)
  have r: "round_f64 9007199254740992000 = 9007199254740992000"
    by (rule round_f64_multiple [of _ 10]) simp_all
  have m: "float_mul (to_float ''9007199254740993'') 1000 = 9007199254740992000"
    by (simp add: float_mul_def t r)
  have "extract_first_number (''$'' @ ''9007199254740993'' @ ''K-$1K'') =
      Some ''9007199254740993''"
    using h by (intro extract_first_number_run) simp_all
  then have "extract_first_number ''$9007199254740993K-$1K'' = Some ''9007199254740993''"
    by simp
  then have v: "Salary_Min_of (Some ''$9007199254740993K-$1K'') = Some 9007199254740992000"
    by (simp only: Salary_Min_of_Some option.map m)
  from h d v show ?thesis by simp
qed

subsection \<open>The derived columns of a row\<close>

lemma add_salary_columns_fields:
  "Salary_Min (add_salary_columns r) = Salary_Min_of (Salary_Estimate r)"
  "Salary_Max (add_salary_columns r) = Salary_Max_of (Salary_Estimate r)"
  "Avg_Salary (add_salary_columns r) =
     Avg_Salary_of (Salary_Min_of (Salary_Estimate r)) (Salary_Max_of (Salary_Estimate r))"
  by (simp_all add: add_salary_columns_def Let_def csv_row.defs df_row.defs)

lemma add_salary_columns_raw:
  "Job_Title (add_salary_columns r) = Job_Title r"
  "Company_Name (add_salary_columns r) = Company_Name r"
  "Sector (add_salary_columns r) = Sector r"
  "Rating (add_salary_columns r) = Rating r"
  "Size (add_salary_columns r) = Size r"
  "Salary_Estimate (add_salary_columns r) = Salary_Estimate r"
  by (simp_all add: add_salary_columns_def Let_def csv_row.defs df_row.defs)

lemma Avg_Salary_of_cases:
  "Avg_Salary_of mn mx =
     (case (mn, mx) of (Some lo, Some hi) \<Rightarrow> Some ((lo + hi) / 2) | _ \<Rightarrow> None)"
  by (simp add: Avg_Salary_of_def nan_div_def nan_add_def split: option.splits)






section \<open>Properties of cleaning and filtering\<close>

lemma boolean_index_map: "boolean_index df (map P df) = filter P df"
  unfolding boolean_index_def by (induction df) auto

lemma mask_and_map: "mask_and (map P df) (map Q df) = map (\<lambda>r. P r \<and> Q r) df"
  unfolding mask_and_def by (induction df) auto

lemma isin_column:
  "isin (map f df) vals = map (\<lambda>r. \<exists>x. f r = Some x \<and> x \<in> set vals) df"
  unfolding isin_def by (auto split: option.splits)

lemma ge_scalar_column:
  "ge_scalar (map f df) k = map (\<lambda>r. \<exists>x. f r = Some x \<and> k \<le> x) df"
  unfolding ge_scalar_def by (auto split: option.splits)

lemma filtered_df_filter:
  "filtered_df dfc selected_sectors selected_sizes min_rating =
     filter (matches (set selected_sectors) (set selected_sizes) min_rating) dfc"
proof -
  have "filtered_df dfc selected_sectors selected_sizes min_rating =
      filter (\<lambda>r. ((\<exists>s. Sector r = Some s \<and> s \<in> set selected_sectors) \<and>
                    (\<exists>z. Size r = Some z \<and> z \<in> set selected_sizes)) \<and>
                   (\<exists>x. Rating r = Some x \<and> min_rating \<le> x)) dfc"
    unfolding filtered_df_def
    by (simp only: isin_column ge_scalar_column mask_and_map boolean_index_map)
  also have "\<dots> = filter (matches (set selected_sectors) (set selected_sizes) min_rating) dfc"
    by (rule filter_cong) (auto simp: matches_def)
  finally show ?thesis .
qed

text \<open>
  Claim C1. The filtered view holds exactly the rows of the cleaned dataset whose sector is
  among the selected sectors, whose size is among the selected sizes and whose rating is at
  least the minimum rating, in their original order. With no sector selected (and likewise
  with no size selected) the view is empty.
\<close>

theorem filtered_df_spec:
  "filtered_df dfc selected_sectors selected_sizes min_rating =
     filter (matches (set selected_sectors) (set selected_sizes) min_rating) dfc
   \<and> filtered_df dfc [] selected_sizes min_rating = []
   \<and> filtered_df dfc selected_sectors [] min_rating = []
   \<and> subseq (filtered_df dfc selected_sectors selected_sizes min_rating) dfc"
proof (intro conjI)
  show "filtered_df dfc selected_sectors selected_sizes min_rating =
     filter (matches (set selected_sectors) (set selected_sizes) min_rating) dfc"
    by (rule filtered_df_filter)
  show "filtered_df dfc [] selected_sizes min_rating = []"
    by (simp add: filtered_df_filter matches_def)
  show "filtered_df dfc selected_sectors [] min_rating = []"
    by (simp add: filtered_df_filter matches_def)
  show "subseq (filtered_df dfc selected_sectors selected_sizes min_rating) dfc"
    by (simp add: filtered_df_filter)
qed

text \<open>The theorem at the end-to-end example of the specification.\<close>

theorem filtered_df_spec_witness:
  "filtered_df (preprocess [tech_large, tech_small, finance_large])
      [''Tech''] [''Large'', ''Small''] 3 = [add_salary_columns tech_large]
   \<and> filtered_df (preprocess [tech_large, tech_small, finance_large])
      [] [''Large'', ''Small''] 0 = []"
proof -
  have "filter (matches (set [''Tech'']) (set [''Large'', ''Small'']) 3)
      (preprocess [tech_large, tech_small, finance_large]) = [add_salary_columns tech_large]"
    by (simp add: preprocess_def matches_def add_salary_columns_raw
        tech_large_def tech_small_def finance_large_def)
  with filtered_df_spec [of "preprocess [tech_large, tech_small, finance_large]"
      "[''Tech'']" "[''Large'', ''Small'']" 3]
  have "filtered_df (preprocess [tech_large, tech_small, finance_large])
      [''Tech''] [''Large'', ''Small''] 3 = [add_salary_columns tech_large]"
    by (simp only:)
  moreover from filtered_df_spec [of "preprocess [tech_large, tech_small, finance_large]"
      "[]" "[''Large'', ''Small'']" 0]
  have "filtered_df (preprocess [tech_large, tech_small, finance_large])
      [] [''Large'', ''Small''] 0 = []"
    by blast
  ultimately show ?thesis by (rule conjI)
qed

lemma dropna_subset_filter:
  "dropna_subset cols df = filter (\<lambda>r. \<forall>missing \<in> set cols. \<not> missing r) df"
  unfolding dropna_subset_def by (simp add: list_ex_iff)

lemma df_clean_filter:
  "df_clean d = filter (\<lambda>r. Job_Title r \<noteq> None \<and> Sector r \<noteq> None \<and> Rating r \<noteq> None) d"
  unfolding df_clean_def dropna_subset_filter by (simp add: isna_def)

lemma length_filter_complement:
  "length (filter P xs) + length (filter (\<lambda>x. \<not> P x) xs) = length xs"
  by (induction xs) auto

lemma preprocess_filter_raw:
  "filter (\<lambda>r. Job_Title r \<noteq> None \<and> Sector r \<noteq> None \<and> Rating r \<noteq> None) (preprocess df) =
     preprocess (filter (\<lambda>r. Job_Title r \<noteq> None \<and> Sector r \<noteq> None \<and> Rating r \<noteq> None) df)"
  unfolding preprocess_def by (simp add: filter_map comp_def add_salary_columns_raw)

text \<open>
  Claim C5. Every row of the cleaned dataset has its job title, sector and rating present.
  Cleaning keeps exactly the loaded rows that have all three, in order, so the number of
  loaded rows minus the number of cleaned rows is the number of loaded rows that miss at
  least one of the three. The filtered view is drawn from the cleaned dataset, whatever
  the criteria are, and cleaning a cleaned dataset again drops nothing.
\<close>

theorem df_clean_spec:
  "(\<forall>r \<in> set (df_clean (preprocess df)).
       Job_Title r \<noteq> None \<and> Sector r \<noteq> None \<and> Rating r \<noteq> None)
   \<and> df_clean (preprocess df) =
       preprocess (filter (\<lambda>r. Job_Title r \<noteq> None \<and> Sector r \<noteq> None \<and> Rating r \<noteq> None) df)
   \<and> length df =
       length (df_clean (preprocess df)) +
       length (filter (\<lambda>r. Job_Title r = None \<or> Sector r = None \<or> Rating r = None) df)
   \<and> length df - length (df_clean (preprocess df)) =
       length (filter (\<lambda>r. Job_Title r = None \<or> Sector r = None \<or> Rating r = None) df)
   \<and> subseq (dashboard_view df selected_sectors selected_sizes min_rating) (df_clean (preprocess df))
   \<and> (\<forall>r \<in> set (dashboard_view df selected_sectors selected_sizes min_rating).
       Job_Title r \<noteq> None \<and> Sector r \<noteq> None \<and> Rating r \<noteq> None)
   \<and> df_clean (df_clean (preprocess df)) = df_clean (preprocess df)"
proof -
  let ?present = "\<lambda>r::csv_row. Job_Title r \<noteq> None \<and> Sector r \<noteq> None \<and> Rating r \<noteq> None"
  have present: "\<forall>r \<in> set (df_clean (preprocess df)).
       Job_Title r \<noteq> None \<and> Sector r \<noteq> None \<and> Rating r \<noteq> None"
    by (simp add: df_clean_filter)
  have kept: "df_clean (preprocess df) = preprocess (filter ?present df)"
    by (simp only: df_clean_filter preprocess_filter_raw)
  have "length (filter ?present df) + length (filter (\<lambda>r. \<not> ?present r) df) = length df"
    by (rule length_filter_complement)
  moreover have "length (df_clean (preprocess df)) = length (filter ?present df)"
    unfolding kept by (simp add: preprocess_def)
  moreover have "(\<lambda>r::csv_row. \<not> ?present r) =
      (\<lambda>r. Job_Title r = None \<or> Sector r = None \<or> Rating r = None)"
    by auto
  ultimately have count: "length df =
       length (df_clean (preprocess df)) +
       length (filter (\<lambda>r. Job_Title r = None \<or> Sector r = None \<or> Rating r = None) df)"
    by simp
  have sub: "subseq (dashboard_view df selected_sectors selected_sizes min_rating)
      (df_clean (preprocess df))"
    by (simp add: dashboard_view_def filtered_df_filter)
  have view: "\<forall>r \<in> set (dashboard_view df selected_sectors selected_sizes min_rating).
       Job_Title r \<noteq> None \<and> Sector r \<noteq> None \<and> Rating r \<noteq> None"
    using present by (auto simp: dashboard_view_def filtered_df_filter)
  have idem: "df_clean (df_clean (preprocess df)) = df_clean (preprocess df)"
    by (simp add: df_clean_filter)
  from present kept count sub view idem show ?thesis
    by (intro conjI) simp_all
qed

text \<open>The theorem at the example with a fourth row that has no rating.\<close>

theorem df_clean_spec_witness:
  "df_clean (preprocess [tech_large, tech_small, finance_large, unrated]) =
     preprocess [tech_large, tech_small, finance_large]
   \<and> length [tech_large, tech_small, finance_large, unrated]
       - length (df_clean (preprocess [tech_large, tech_small, finance_large, unrated])) = 1
   \<and> length (filter (\<lambda>r. Job_Title r = None \<or> Sector r = None \<or> Rating r = None)
         [tech_large, tech_small, finance_large, unrated]) = 1
   \<and> list_all (\<lambda>r. Job_Title r \<noteq> None \<and> Sector r \<noteq> None \<and> Rating r \<noteq> None)
         (dashboard_view [tech_large, tech_small, finance_large, unrated] [''Tech''] [''Large''] 0)"
proof -
  let ?df = "[tech_large, tech_small, finance_large, unrated]"
  have f: "filter (\<lambda>r. Job_Title r \<noteq> None \<and> Sector r \<noteq> None \<and> Rating r \<noteq> None) ?df =
      [tech_large, tech_small, finance_large]"
    by (simp add: tech_large_def tech_small_def finance_large_def unrated_def del: not_None_eq)
  have g: "length (filter (\<lambda>r. Job_Title r = None \<or> Sector r = None \<or> Rating r = None) ?df) = 1"
    by (simp add: tech_large_def tech_small_def finance_large_def unrated_def)
  from df_clean_spec [of ?df "[''Tech'']" "[''Large'']" 0] f g
  show ?thesis by (simp add: list_all_iff)
qed

section \<open>Properties of the pagination\<close>

lemma take_drop_nth_upt:
  assumes "e \<le> length xs"
  shows "take (e - s) (drop s xs) = map ((!) xs) [s..<e]"
proof (rule nth_equalityI)
  show "length (take (e - s) (drop s xs)) = length (map ((!) xs) [s..<e])"
    using assms by simp
next
  fix i
  assume "i < length (take (e - s) (drop s xs))"
  then have "i < e - s" by simp
  with assms show "take (e - s) (drop s xs) ! i = map ((!) xs) [s..<e] ! i"
    by simp
qed

lemma slice_index_nonneg: "0 \<le> i \<Longrightarrow> slice_index n i = min (nat i) n"
  by (simp add: slice_index_def)

lemma iloc_slice_nonneg:
  assumes "0 \<le> start" and "0 \<le> stop"
  shows "iloc_slice xs start stop =
    map ((!) xs) [min (nat start) (length xs)..<min (nat stop) (length xs)]"
  unfolding iloc_slice_def Let_def slice_index_nonneg [OF assms(1)] slice_index_nonneg [OF assms(2)]
  by (rule take_drop_nth_upt) simp

lemma upt_clamp_lower:
  "[min s n..<min e n] = [s..<min e (n::nat)]"
  by (cases "s \<le> n") (simp_all add: min_def)

lemma page_rows_range:
  assumes "0 < page_size" and "1 \<le> page_number"
  shows "page_rows view page_size page_number =
     map (\<lambda>i. display (view ! i))
       [nat ((page_number - 1) * page_size)..<min (nat (page_number * page_size)) (length view)]"
proof -
  let ?start = "(page_number - 1) * page_size"
  from assms have s: "0 \<le> ?start" by simp
  with assms have e: "0 \<le> ?start + page_size" by simp
  have pe: "?start + page_size = page_number * page_size"
    by (simp add: algebra_simps)
  have "page_rows view page_size page_number =
      map ((!) (map display view))
        [min (nat ?start) (length view)..<min (nat (?start + page_size)) (length view)]"
    unfolding page_rows_def Let_def using iloc_slice_nonneg [OF s e, of "map display view"]
    by simp
  also have "\<dots> = map ((!) (map display view))
        [nat ?start..<min (nat (page_number * page_size)) (length view)]"
    by (simp only: upt_clamp_lower pe)
  also have "\<dots> = map (\<lambda>i. display (view ! i))
        [nat ?start..<min (nat (page_number * page_size)) (length view)]"
    by (rule map_cong) simp_all
  finally show ?thesis .
qed

lemma total_pages_ceiling:
  assumes "0 < page_size"
  shows "total_pages view page_size = \<lceil>real (length view) / real_of_int page_size\<rceil>"
proof -
  have "\<lceil>real (length view) / real_of_int page_size\<rceil> =
      \<lceil>real_of_int (int (length view)) / real_of_int page_size\<rceil>"
    by simp
  also have "\<dots> = - (- int (length view) div page_size)"
    by (rule ceiling_divide_eq_div)
  also have "\<dots> = total_pages view page_size"
    using assms by (simp add: total_pages_def zdiv_zminus1_eq_if)
  finally show ?thesis by simp
qed

lemma total_pages_empty: "total_pages [] page_size = 0"
  by (simp add: total_pages_def)

text \<open>
  Claim C6. For a page size above 0 (the slider gives 5..50) and a page number from 1 on,
  the page shows the display columns of the records with indices from
  \<open>(page_number - 1) * page_size\<close> up to, not including, \<open>page_number * page_size\<close>, clamped
  to the length of the view, in order. The number of pages is the ceiling of the length of
  the view divided by the page size, 0 for the empty view; every page the selector offers
  is shown, and the empty view shows no table. On a view of 25 records with page size 10,
  page 1 is the records 0..9 and page 3 is the 5 records 20..24.
\<close>

theorem pagination_spec:
  "(0 < page_size \<and> 1 \<le> page_number \<longrightarrow>
      page_rows view page_size page_number =
        map (\<lambda>i. display (view ! i))
          [nat ((page_number - 1) * page_size)..<
             min (nat (page_number * page_size)) (length view)])
   \<and> (0 < page_size \<longrightarrow>
        total_pages view page_size = \<lceil>real (length view) / real_of_int page_size\<rceil>)
   \<and> (0 < page_size \<longrightarrow> total_pages ([] :: df_row list) page_size = 0)
   \<and> (0 < page_size \<and> page_number \<in> set (page_options view page_size) \<longrightarrow>
        1 \<le> page_number \<and>
        show_table view page_size page_number = Some (page_rows view page_size page_number))
   \<and> (0 < page_size \<longrightarrow> show_table [] page_size page_number = None)
   \<and> (length view = 25 \<longrightarrow>
        total_pages view 10 = 3 \<and>
        page_rows view 10 1 = map display (take 10 view) \<and>
        page_rows view 10 3 = map display (drop 20 view) \<and>
        length (page_rows view 10 3) = 5)"
proof (intro conjI impI)
  assume "0 < page_size \<and> 1 \<le> page_number"
  then show "page_rows view page_size page_number =
        map (\<lambda>i. display (view ! i))
          [nat ((page_number - 1) * page_size)..<
             min (nat (page_number * page_size)) (length view)]"
    by (simp only: page_rows_range)
next
  assume "0 < page_size"
  then show "total_pages view page_size = \<lceil>real (length view) / real_of_int page_size\<rceil>"
    by (rule total_pages_ceiling)
next
  show "total_pages ([] :: df_row list) page_size = 0"
    by (rule total_pages_empty)
next
  assume h: "0 < page_size \<and> page_number \<in> set (page_options view page_size)"
  then show "1 \<le> page_number" by (simp add: page_options_def)
  from h have "0 < total_pages view page_size" by (simp add: page_options_def)
  then show "show_table view page_size page_number = Some (page_rows view page_size page_number)"
    by (simp add: show_table_def)
next
  show "show_table [] page_size page_number = None"
    by (simp add: show_table_def total_pages_empty)
next
  assume len: "length view = 25"
  show "total_pages view 10 = 3" by (simp add: total_pages_def len)
  have "page_rows view 10 1 = iloc_slice (map display view) 0 10"
    by (simp add: page_rows_def)
  also have "\<dots> = map display (take 10 view)"
    by (simp add: iloc_slice_def slice_index_def len take_map)
  finally show "page_rows view 10 1 = map display (take 10 view)" .
  have "page_rows view 10 3 = iloc_slice (map display view) 20 30"
    by (simp add: page_rows_def)
  also have "\<dots> = map display (drop 20 view)"
    by (simp add: iloc_slice_def slice_index_def len drop_map)
  finally show p3: "page_rows view 10 3 = map display (drop 20 view)" .
  show "length (page_rows view 10 3) = 5" by (simp add: p3 len)
qed

text \<open>The theorem at a view of 25 records with page size 10.\<close>

theorem pagination_spec_witness:
  "length view25 = 25
   \<and> total_pages view25 10 = 3
   \<and> \<lceil>real (length view25) / real_of_int 10\<rceil> = 3
   \<and> page_options view25 10 = [1, 2, 3]
   \<and> show_table view25 10 3 = Some (page_rows view25 10 3)
   \<and> page_rows view25 10 1 = map (\<lambda>i. display (view25 ! i)) [0..<10]
   \<and> page_rows view25 10 3 = map (\<lambda>i. display (view25 ! i)) [20..<25]
   \<and> page_rows view25 10 3 = map display (drop 20 view25)
   \<and> length (page_rows view25 10 3) = 5"
proof -
  have len: "length view25 = 25" by (simp add: view25_def)
  note t1 = pagination_spec [of 10 1 view25]
  note t3 = pagination_spec [of 10 3 view25]
  have tp: "total_pages view25 10 = 3" using t3 len by blast
  have ce: "\<lceil>real (length view25) / real_of_int 10\<rceil> = 3" using t3 tp by simp
  have po: "page_options view25 10 = [1, 2, 3]"
    by (simp add: page_options_def tp upto_rec1)
  then have "(3::int) \<in> set (page_options view25 10)" by simp
  with t3 have st: "show_table view25 10 3 = Some (page_rows view25 10 3)" by simp
  from t1 have p1: "page_rows view25 10 1 = map (\<lambda>i. display (view25 ! i)) [0..<10]"
    by (simp add: len)
  from t3 have p3: "page_rows view25 10 3 = map (\<lambda>i. display (view25 ! i)) [20..<25]"
    by (simp add: len)
  from t3 len have d3: "page_rows view25 10 3 = map display (drop 20 view25)"
    and l3: "length (page_rows view25 10 3) = 5" by blast+
  from len tp ce po st p1 p3 d3 l3 show ?thesis by blast
qed

section \<open>Properties of the summary metrics\<close>

lemma count_defined:
  "length (filter (\<lambda>v. \<not> isna v) (map Avg_Salary view)) = length (defined_avg_salaries view)"
  by (induction view) (simp_all add: defined_avg_salaries_def isna_def)

lemma sum_fill_zero:
  "sum_list (map (\<lambda>v. case v of None \<Rightarrow> 0 | Some x \<Rightarrow> x) (map Avg_Salary view)) =
     sum_list (defined_avg_salaries view)"
  by (induction view) (auto simp: defined_avg_salaries_def split: option.splits)

lemma series_mean_defined:
  "series_mean (map Avg_Salary view) =
     (if defined_avg_salaries view = [] then None
      else Some (sum_list (defined_avg_salaries view) / real (length (defined_avg_salaries view))))"
  unfolding series_mean_def Let_def count_defined sum_fill_zero by simp

lemma defined_avg_salaries_Nil_iff:
  "defined_avg_salaries view = [] \<longleftrightarrow> list_all (\<lambda>r. Avg_Salary r = None) view"
  by (induction view) (simp_all add: defined_avg_salaries_def)

lemma defined_avg_salaries_filter:
  "defined_avg_salaries (filter (\<lambda>r. Avg_Salary r \<noteq> None) view) = defined_avg_salaries view"
  by (simp add: defined_avg_salaries_def)

lemma avg_salary_summary: "avg_salary (summary view) = series_mean (map Avg_Salary view)"
  by (simp add: summary_def)

text \<open>
  Claim C10. The reported mean average salary of a view is the sum of the defined
  \<open>Avg_Salary\<close> values divided by the number of records that have one: a record with an
  undefined \<open>Avg_Salary\<close> adds nothing to the sum and nothing to the count, so dropping
  such records from the view leaves the mean unchanged. The mean is undefined exactly when
  no record of the view has a defined \<open>Avg_Salary\<close>.
\<close>

theorem mean_avg_salary_spec:
  "(defined_avg_salaries view \<noteq> [] \<longrightarrow>
      avg_salary (summary view) =
        Some (sum_list (defined_avg_salaries view) / real (length (defined_avg_salaries view))))
   \<and> length (defined_avg_salaries view) = length (filter (\<lambda>r. Avg_Salary r \<noteq> None) view)
   \<and> avg_salary (summary view) = avg_salary (summary (filter (\<lambda>r. Avg_Salary r \<noteq> None) view))
   \<and> (avg_salary (summary view) = None \<longleftrightarrow> list_all (\<lambda>r. Avg_Salary r = None) view)"
proof (intro conjI impI)
  assume "defined_avg_salaries view \<noteq> []"
  then show "avg_salary (summary view) =
        Some (sum_list (defined_avg_salaries view) / real (length (defined_avg_salaries view)))"
    by (simp add: avg_salary_summary series_mean_defined)
next
  show "length (defined_avg_salaries view) = length (filter (\<lambda>r. Avg_Salary r \<noteq> None) view)"
    by (simp add: defined_avg_salaries_def)
next
  show "avg_salary (summary view) = avg_salary (summary (filter (\<lambda>r. Avg_Salary r \<noteq> None) view))"
    by (simp only: avg_salary_summary series_mean_defined defined_avg_salaries_filter)
next
  show "avg_salary (summary view) = None \<longleftrightarrow> list_all (\<lambda>r. Avg_Salary r = None) view"
    by (simp add: avg_salary_summary series_mean_defined defined_avg_salaries_Nil_iff)
qed

text \<open>
  The theorem at a view of three records, the second with no salary estimate: the mean is
  (100000 + 70000) / 2, not a third of the sum.
\<close>

theorem mean_avg_salary_spec_witness:
  "defined_avg_salaries (preprocess [tech_large, finance_large, tech_small]) = [100000, 70000]
   \<and> avg_salary (summary (preprocess [tech_large, finance_large, tech_small])) = Some 85000
   \<and> avg_salary (summary (preprocess [finance_large])) = None"
proof -
  have fields:
    "Avg_Salary (add_salary_columns tech_large) = Some 100000"
    "Avg_Salary (add_salary_columns tech_small) = Some 70000"
    "Avg_Salary (add_salary_columns finance_large) = None"
    by (simp_all add: add_salary_columns_fields Avg_Salary_of_cases Salary_Min_of_Some
        Salary_Max_of_Some Salary_Min_of_def Salary_Max_of_def nan_mul_def
        extract_first_number_def match_range_here_def digits1_def is_digit_def
        scaled_exact decimal_def digit_value_def tech_large_def tech_small_def finance_large_def)
  have d: "defined_avg_salaries (preprocess [tech_large, finance_large, tech_small]) =
      [100000, 70000]"
    by (simp add: defined_avg_salaries_def preprocess_def fields)
  have n: "list_all (\<lambda>r. Avg_Salary r = None) (preprocess [finance_large])"
    by (simp add: preprocess_def fields)
  from mean_avg_salary_spec [of "preprocess [tech_large, finance_large, tech_small]"] d
  have "avg_salary (summary (preprocess [tech_large, finance_large, tech_small])) = Some 85000"
    by simp
  moreover from mean_avg_salary_spec [of "preprocess [finance_large]"] n
  have "avg_salary (summary (preprocess [finance_large])) = None" by blast
  ultimately show ?thesis using d by blast
qed



end
